theory Spec2Isabelle
  imports Main "HOL-Library.Word"
begin

section \<open>The thread timing recorder of \<^verbatim>\<open>mandelbrot_threads/thread_timing.cpp\<close>\<close>

text \<open>
  The recorder buffers one \<^verbatim>\<open>Sample\<close> per unit of timed work in a process-wide
  \<^verbatim>\<open>GlobalState\<close> and appends the buffer as CSV rows to a file in \<^verbatim>\<open>endRun\<close>.
  The model below is the code compiled with \<^verbatim>\<open>ENABLE_THREAD_TIMING\<close>. Every
  function of the source that touches the shared state does so under the one mutex, so
  each call is one atomic step of a sequential model; the file operations of \<^verbatim>\<open>endRun\<close>
  run after its locked section, on the values it copied there.

  What C++ leaves to the platform is fixed as on Linux/x86-64: \<^verbatim>\<open>int\<close> has 32 bits,
  \<^verbatim>\<open>double\<close> is IEEE 754 binary64 with round-to-nearest-even, and \<^verbatim>\<open>fprintf\<close>
  formats as glibc does.
\<close>

subsection \<open>Machine numbers\<close>

text \<open>
  \<^verbatim>\<open>int\<close>: a 32-bit word read in two's complement. C++ leaves the overflow of
  \<^verbatim>\<open>++\<close> on an \<^verbatim>\<open>int\<close> undefined; the model takes the wrap-around of the
  \<^verbatim>\<open>add\<close> instruction that compilers emit for it.
\<close>

type_synonym cint = "32 word"

text \<open>
  \<^verbatim>\<open>double\<close>: the value of a finite double is \<open>m * 2 ^ e\<close> with a sign bit, where
  \<open>2 ^ 52 \<le> m < 2 ^ 53\<close> and \<open>- 1074 \<le> e \<le> 971\<close> for a normal number, and
  \<open>m < 2 ^ 52\<close> with \<open>e = - 1074\<close> for a subnormal number or a zero. The boolean is
  the sign bit (\<open>True\<close> for negative). The payload of a NaN is not observable by the
  program and is left out.
\<close>

datatype double = NaN bool | Inf bool | Fin bool nat int

fun ilog2 :: "nat \<Rightarrow> nat" where
  "ilog2 n = (if n < 2 then 0 else Suc (ilog2 (n div 2)))"

declare ilog2.simps [simp del]

text \<open>\<open>floor_log2 p q\<close> is \<open>\<lfloor>log\<^sub>2 (p / q)\<rfloor>\<close> for positive \<open>p\<close> and \<open>q\<close>.\<close>

definition floor_log2 :: "nat \<Rightarrow> nat \<Rightarrow> int" where
  "floor_log2 p q =
     (if q \<le> p then int (ilog2 (p div q))
      else (let k = ilog2 (q div p) in
            if p * 2 ^ k = q then - int k else - int k - 1))"

text \<open>\<open>round_half_even a b\<close> is the integer nearest to \<open>a / b\<close>, a tie going to the even one.\<close>

definition round_half_even :: "nat \<Rightarrow> nat \<Rightarrow> nat" where
  "round_half_even a b =
     (let q = a div b; r = a mod b in
      if b < 2 * r \<or> (2 * r = b \<and> odd q) then q + 1 else q)"

text \<open>
  \<open>round_double s p q\<close> is the double nearest to the exact value \<open>p / q\<close> with sign
  \<open>s\<close> (round to nearest, ties to even): the result of every arithmetic operation and
  the value of a decimal literal. A magnitude that rounds to \<open>2 ^ 1024\<close> or more
  overflows to infinity; one below half of the least subnormal number becomes a zero
  of the same sign.
\<close>

definition round_double :: "bool \<Rightarrow> nat \<Rightarrow> nat \<Rightarrow> double" where
  "round_double s p q =
     (if p = 0 then Fin s 0 (- 1074)
      else
        (let e = max (floor_log2 p q - 52) (- 1074);
             m = (if 0 \<le> e then round_half_even p (q * 2 ^ nat e)
                  else round_half_even (p * 2 ^ nat (- e)) q);
             (m', e') = (if m = 2 ^ 53 then (2 ^ 52, e + 1) else (m, e))
         in if 971 < e' then Inf s else Fin s m' e'))"

text \<open>The exact value \<open>m * 2 ^ e\<close> as a fraction \<open>(numerator, denominator)\<close>.\<close>

definition fraction_of :: "nat \<Rightarrow> int \<Rightarrow> nat \<times> nat" where
  "fraction_of m e = (if 0 \<le> e then (m * 2 ^ nat e, 1) else (m, 2 ^ nat (- e)))"

text \<open>
  Multiplication \<^verbatim>\<open>x * y\<close>. A NaN operand is passed on (the first one, when both are);
  zero times infinity is the default NaN, whose sign bit is set on x86-64.
\<close>

fun dmul :: "double \<Rightarrow> double \<Rightarrow> double" where
  "dmul (NaN s) _ = NaN s"
| "dmul _ (NaN s) = NaN s"
| "dmul (Inf s1) (Inf s2) = Inf (s1 \<noteq> s2)"
| "dmul (Inf s1) (Fin s2 m e) = (if m = 0 then NaN True else Inf (s1 \<noteq> s2))"
| "dmul (Fin s1 m e) (Inf s2) = (if m = 0 then NaN True else Inf (s1 \<noteq> s2))"
| "dmul (Fin s1 m1 e1) (Fin s2 m2 e2) =
     (let (p, q) = fraction_of (m1 * m2) (e1 + e2) in round_double (s1 \<noteq> s2) p q)"

text \<open>
  Subtraction \<^verbatim>\<open>x - y\<close>. The difference of two finite doubles is exact over the
  integers once both are scaled to the smaller exponent; an exact zero is \<open>+0\<close>, except
  \<open>(-0) - (+0) = -0\<close>. Infinity minus the same infinity is the default NaN.
\<close>

fun dsub :: "double \<Rightarrow> double \<Rightarrow> double" where
  "dsub (NaN s) _ = NaN s"
| "dsub _ (NaN s) = NaN s"
| "dsub (Inf s1) (Inf s2) = (if s1 = s2 then NaN True else Inf s1)"
| "dsub (Inf s1) (Fin s2 m e) = Inf s1"
| "dsub (Fin s1 m e) (Inf s2) = Inf (\<not> s2)"
| "dsub (Fin s1 m1 e1) (Fin s2 m2 e2) =
     (let e = min e1 e2;
          a = (if s1 then - 1 else 1) * int m1 * 2 ^ nat (e1 - e);
          b = (if s2 then - 1 else 1) * int m2 * 2 ^ nat (e2 - e);
          d = a - b
      in if d = 0 then Fin (s1 \<and> \<not> s2) 0 (- 1074)
         else (let (p, q) = fraction_of (nat \<bar>d\<bar>) e in round_double (d < 0) p q))"

text \<open>The literal \<^verbatim>\<open>1000.0\<close> of the source, and the literals \<^verbatim>\<open>1.0\<close> and \<^verbatim>\<open>1.0025\<close>.\<close>

definition d1000 :: double where
  "d1000 = round_double False 1000 1"

definition lit_1_0 :: double where
  "lit_1_0 = round_double False 1 1"

definition lit_1_0025 :: double where
  "lit_1_0025 = round_double False 10025 10000"

subsection \<open>Formatting\<close>

text \<open>Decimal digits of a natural number, most significant first.\<close>

definition digit :: "nat \<Rightarrow> char" where
  "digit d = ''0123456789'' ! d"

fun digits :: "nat \<Rightarrow> string" where
  "digits n = (if n < 10 then [digit n] else digits (n div 10) @ [digit (n mod 10)])"

declare digits.simps [simp del]

text \<open>\<^verbatim>\<open>%d\<close> of an \<^verbatim>\<open>int\<close>.\<close>

definition fmt_d :: "cint \<Rightarrow> string" where
  "fmt_d x = (if sint x < 0 then ''-'' @ digits (nat (- sint x)) else digits (nat (sint x)))"

text \<open>
  \<^verbatim>\<open>%.6f\<close> of a \<^verbatim>\<open>double\<close>: the exact value rounded to six decimals (glibc rounds
  the exact binary value to nearest, ties to even), the integer part, a point and six
  decimals. The sign bit prints as a minus, also on a zero, an infinity and a NaN.
\<close>

definition decimals6 :: "nat \<Rightarrow> string" where
  "decimals6 n = map (\<lambda>k. digit (n div 10 ^ k mod 10)) [5, 4, 3, 2, 1, 0]"

definition fmt_f6 :: "double \<Rightarrow> string" where
  "fmt_f6 x =
     (case x of
        NaN s \<Rightarrow> (if s then ''-'' else []) @ ''nan''
      | Inf s \<Rightarrow> (if s then ''-'' else []) @ ''inf''
      | Fin s m e \<Rightarrow>
          (let (p, q) = fraction_of (m * 1000000) e;
               n = round_half_even p q
           in (if s then ''-'' else []) @ digits (n div 1000000) @ ''.''
              @ decimals6 (n mod 1000000)))"

subsection \<open>The recorder state\<close>

record Sample =
  threadId :: cint
  startMs :: double
  endMs :: double
  durationMs :: double

text \<open>
  \<^verbatim>\<open>GlobalState\<close> without its mutex: the model is sequential and every locked section is
  one step.
\<close>

record GlobalState =
  runId :: cint
  numThreads :: cint
  runCounter :: cint
  label :: string
  outputPath :: string
  samples :: "Sample list"

text \<open>The function-local static of \<^verbatim>\<open>state()\<close>, as its member initialisers leave it.\<close>

definition initial_state :: GlobalState where
  "initial_state =
     \<lparr>runId = 0, numThreads = 0, runCounter = 0, label = [],
      outputPath = ''thread_timings.csv'', samples = []\<rparr>"

subsection \<open>Files and the error stream\<close>

text \<open>
  The part of the C library that \<^verbatim>\<open>endRun\<close> and \<^verbatim>\<open>fileHasContent\<close> call. A file has
  its bytes and, for each of the two ways the program opens it, the error that
  \<^verbatim>\<open>fopen\<close> fails with, if any. For a name with no file, \<open>create_err\<close> is the error
  that creating it fails with, if any. A file created by \<^verbatim>\<open>fopen(name, "a")\<close> is
  empty and can be read and appended to by its creator. A write to an open stream
  either appends its text (\<open>fprintf\<close> below) or fails, as on a device with no room
  left (\<open>fprintf_no_space\<close> below).
\<close>

datatype errno = ENOENT | EACCES | EISDIR | ENOTDIR | ENOSPC | EROFS | EMFILE

fun strerror :: "errno \<Rightarrow> string" where
  "strerror ENOENT = ''No such file or directory''"
| "strerror EACCES = ''Permission denied''"
| "strerror EISDIR = ''Is a directory''"
| "strerror ENOTDIR = ''Not a directory''"
| "strerror ENOSPC = ''No space left on device''"
| "strerror EROFS = ''Read-only file system''"
| "strerror EMFILE = ''Too many open files''"

record regular_file =
  content :: string
  read_err :: "errno option"
  append_err :: "errno option"

record filesystem =
  files :: "string \<rightharpoonup> regular_file"
  create_err :: "string \<Rightarrow> errno option"

text \<open>
  \<^verbatim>\<open>std::string::c_str()\<close> read as a C string: the bytes before the first NUL.
\<close>

definition c_str :: "string \<Rightarrow> string" where
  "c_str s = takeWhile (\<lambda>c. c \<noteq> CHR 0x00) s"

text \<open>
  \<^verbatim>\<open>fopen(name, "r")\<close>: the bytes the stream delivers, or \<open>None\<close> for the null
  pointer.
\<close>

definition fopen_r :: "filesystem \<Rightarrow> string \<Rightarrow> string option" where
  "fopen_r fs name =
     (case files fs name of
        None \<Rightarrow> None
      | Some f \<Rightarrow> (case read_err f of Some e \<Rightarrow> None | None \<Rightarrow> Some (content f)))"

text \<open>\<^verbatim>\<open>fgetc\<close> on a fresh stream: the first byte as an \<^verbatim>\<open>unsigned char\<close>, or \<^verbatim>\<open>EOF\<close>.\<close>

definition EOF :: int where
  "EOF = - 1"

definition fgetc :: "string \<Rightarrow> int" where
  "fgetc bytes = (case bytes of [] \<Rightarrow> EOF | c # cs \<Rightarrow> int (of_char c))"

definition fileHasContent :: "filesystem \<Rightarrow> string \<Rightarrow> bool" where
  "fileHasContent fs path =
     (case fopen_r fs (c_str path) of
        None \<Rightarrow> False
      | Some bytes \<Rightarrow> (let ch = fgetc bytes in ch \<noteq> EOF))"

text \<open>
  \<^verbatim>\<open>fopen(name, "a")\<close>: the error, or the file system in which the file exists. The
  open stream is named by the file's name.
\<close>

definition new_file :: regular_file where
  "new_file = \<lparr>content = [], read_err = None, append_err = None\<rparr>"

definition fopen_a :: "filesystem \<Rightarrow> string \<Rightarrow> errno + filesystem" where
  "fopen_a fs name =
     (case files fs name of
        Some f \<Rightarrow> (case append_err f of Some e \<Rightarrow> Inl e | None \<Rightarrow> Inr fs)
      | None \<Rightarrow>
          (case create_err fs name of
             Some e \<Rightarrow> Inl e
           | None \<Rightarrow> Inr (fs\<lparr>files := (files fs)(name \<mapsto> new_file)\<rparr>)))"

text \<open>
  \<^verbatim>\<open>fprintf\<close> with the formatted text on a stream opened for append, when the write
  succeeds: the text is at the end of the file once the stream is closed.
\<close>

definition fprintf :: "filesystem \<Rightarrow> string \<Rightarrow> string \<Rightarrow> filesystem" where
  "fprintf fs fp txt =
     (case files fs fp of
        None \<Rightarrow> fs
      | Some f \<Rightarrow> fs\<lparr>files := (files fs)(fp \<mapsto> f\<lparr>content := content f @ txt\<rparr>)\<rparr>)"

text \<open>\<^verbatim>\<open>perror\<close>: the line written to the error stream for an \<^verbatim>\<open>errno\<close>.\<close>

definition perror :: "string \<Rightarrow> errno \<Rightarrow> string" where
  "perror msg e = msg @ '': '' @ strerror e @ [CHR 0x0A]"

text \<open>What the program can observe and change: its state, the files, the error stream.\<close>

record world =
  gstate :: GlobalState
  fsys :: filesystem
  stderr :: string

subsection \<open>The operations\<close>

definition setOutputPath :: "string \<Rightarrow> world \<Rightarrow> world" where
  "setOutputPath path w = w\<lparr>gstate := (gstate w)\<lparr>outputPath := path\<rparr>\<rparr>"

definition setRunLabel :: "string \<Rightarrow> world \<Rightarrow> world" where
  "setRunLabel l w = w\<lparr>gstate := (gstate w)\<lparr>label := l\<rparr>\<rparr>"

definition beginRun :: "cint \<Rightarrow> world \<Rightarrow> world" where
  "beginRun n w =
     (let s = (gstate w)\<lparr>samples := []\<rparr>;
          s = s\<lparr>numThreads := n\<rparr>;
          s = s\<lparr>runCounter := runCounter s + 1\<rparr>;
          s = s\<lparr>runId := runCounter s\<rparr>
      in w\<lparr>gstate := s\<rparr>)"

text \<open>The \<^verbatim>\<open>Sample\<close> that \<^verbatim>\<open>recordSample\<close> fills in before it takes the buffer.\<close>

definition new_sample :: "cint \<Rightarrow> double \<Rightarrow> double \<Rightarrow> Sample" where
  "new_sample tid startSeconds endSeconds =
     \<lparr>threadId = tid,
      startMs = dmul startSeconds d1000,
      endMs = dmul endSeconds d1000,
      durationMs = dmul (dsub endSeconds startSeconds) d1000\<rparr>"

definition recordSample :: "cint \<Rightarrow> double \<Rightarrow> double \<Rightarrow> world \<Rightarrow> world" where
  "recordSample tid startSeconds endSeconds w =
     (let s = gstate w;
          sample = new_sample tid startSeconds endSeconds
      in w\<lparr>gstate := s\<lparr>samples := samples s @ [sample]\<rparr>\<rparr>)"

definition csv_header :: string where
  "csv_header =
     ''run_id,label,num_threads,thread_id,start_ms,end_ms,duration_ms'' @ [CHR 0x0A]"

text \<open>The text of \<^verbatim>\<open>"%d,%s,%d,%d,%.6f,%.6f,%.6f\n"\<close> for one sample.\<close>

definition csv_row :: "cint \<Rightarrow> string \<Rightarrow> cint \<Rightarrow> Sample \<Rightarrow> string" where
  "csv_row rid lbl nt sample =
     fmt_d rid @ '','' @ c_str lbl @ '','' @ fmt_d nt @ '','' @ fmt_d (threadId sample)
     @ '','' @ fmt_f6 (startMs sample) @ '','' @ fmt_f6 (endMs sample)
     @ '','' @ fmt_f6 (durationMs sample) @ [CHR 0x0A]"

definition endRun :: "world \<Rightarrow> world" where
  "endRun w =
     (let s = gstate w in
      if samples s = [] then w
      else
        (let localSamples = samples s;
             lbl = label s;
             rid = runId s;
             nt = numThreads s;
             needHeader = (\<not> fileHasContent (fsys w) (outputPath s))
         in case fopen_a (fsys w) (c_str (outputPath s)) of
              Inl e \<Rightarrow> w\<lparr>stderr := stderr w @ perror ''thread_timings fopen'' e\<rparr>
            | Inr fs \<Rightarrow>
                (let fp = c_str (outputPath s);
                     fs = (if needHeader then fprintf fs fp csv_header else fs);
                     fs = foldl (\<lambda>fs sample. fprintf fs fp (csv_row rid lbl nt sample))
                            fs localSamples
                 in w\<lparr>fsys := fs\<rparr>)))"

text \<open>
  \<^verbatim>\<open>endRun\<close> reads the result of neither \<^verbatim>\<open>fprintf\<close> nor \<^verbatim>\<open>fclose\<close> (lines 93 to
  109 of the source), so what it leaves in the file is what the writes of the C library
  let through. \<open>endRun_with wr\<close> is \<^verbatim>\<open>endRun\<close> where one \<^verbatim>\<open>fprintf\<close> call has the
  effect \<open>wr\<close> on the files; \<open>endRun\<close> above is the case where every write appends
  its text. \<open>fprintf_no_space\<close> is the write on a device with no room left: the call,
  or the flush in \<^verbatim>\<open>fclose\<close>, fails with \<^verbatim>\<open>ENOSPC\<close> and nothing reaches the file.
\<close>

definition endRun_with ::
  "(filesystem \<Rightarrow> string \<Rightarrow> string \<Rightarrow> filesystem) \<Rightarrow> world \<Rightarrow> world" where
  "endRun_with wr w =
     (let s = gstate w in
      if samples s = [] then w
      else
        (let localSamples = samples s;
             lbl = label s;
             rid = runId s;
             nt = numThreads s;
             needHeader = (\<not> fileHasContent (fsys w) (outputPath s))
         in case fopen_a (fsys w) (c_str (outputPath s)) of
              Inl e \<Rightarrow> w\<lparr>stderr := stderr w @ perror ''thread_timings fopen'' e\<rparr>
            | Inr fs \<Rightarrow>
                (let fp = c_str (outputPath s);
                     fs = (if needHeader then wr fs fp csv_header else fs);
                     fs = foldl (\<lambda>fs sample. wr fs fp (csv_row rid lbl nt sample))
                            fs localSamples
                 in w\<lparr>fsys := fs\<rparr>)))"

definition fprintf_no_space :: "filesystem \<Rightarrow> string \<Rightarrow> string \<Rightarrow> filesystem" where
  "fprintf_no_space fs fp txt = fs"

subsection \<open>Sequences of calls\<close>

text \<open>
  The callers are not part of the module. A caller is a list of calls of the five
  functions of \<^verbatim>\<open>thread_timing.h\<close>, run in order from the start of the process.
\<close>

datatype call =
    SetOutputPath string
  | SetRunLabel string
  | BeginRun cint
  | RecordSample cint double double
  | EndRun

fun exec :: "call \<Rightarrow> world \<Rightarrow> world" where
  "exec (SetOutputPath path) w = setOutputPath path w"
| "exec (SetRunLabel l) w = setRunLabel l w"
| "exec (BeginRun n) w = beginRun n w"
| "exec (RecordSample tid s e) w = recordSample tid s e w"
| "exec EndRun w = endRun w"

definition run :: "call list \<Rightarrow> world \<Rightarrow> world" where
  "run cs w = foldl (\<lambda>w c. exec c w) w cs"

definition process_start :: "filesystem \<Rightarrow> world" where
  "process_start fs = \<lparr>gstate = initial_state, fsys = fs, stderr = []\<rparr>"

text \<open>The bytes of a file, empty when there is no file of that name.\<close>

definition file_text :: "filesystem \<Rightarrow> string \<Rightarrow> string" where
  "file_text fs name = (case files fs name of None \<Rightarrow> [] | Some f \<Rightarrow> content f)"

text \<open>How many of the calls are \<^verbatim>\<open>beginRun\<close>.\<close>

fun begin_count :: "call list \<Rightarrow> nat" where
  "begin_count [] = 0"
| "begin_count (BeginRun n # cs) = Suc (begin_count cs)"
| "begin_count (c # cs) = begin_count cs"

text \<open>
  The calls that workers and the coordinator make inside a run in the claims below:
  \<^verbatim>\<open>recordSample\<close> and \<^verbatim>\<open>setRunLabel\<close>. \<open>label_after l cs\<close> is the argument of the
  last \<^verbatim>\<open>setRunLabel\<close> among \<open>cs\<close> (\<open>l\<close> when there is none), and \<open>recorded cs\<close>
  lists the samples of the \<^verbatim>\<open>recordSample\<close> calls among \<open>cs\<close>, in call order.
\<close>

fun in_run :: "call \<Rightarrow> bool" where
  "in_run (RecordSample tid s e) = True"
| "in_run (SetRunLabel l) = True"
| "in_run c = False"

fun label_after :: "string \<Rightarrow> call list \<Rightarrow> string" where
  "label_after l [] = l"
| "label_after l (SetRunLabel l' # cs) = label_after l' cs"
| "label_after l (c # cs) = label_after l cs"

fun recorded :: "call list \<Rightarrow> Sample list" where
  "recorded [] = []"
| "recorded (RecordSample tid s e # cs) = new_sample tid s e # recorded cs"
| "recorded (c # cs) = recorded cs"

subsection \<open>File systems of the examples\<close>

text \<open>No file exists; any name but the empty one can be created.\<close>

definition no_files :: filesystem where
  "no_files =
     \<lparr>files = Map.empty, create_err = (\<lambda>name. if name = [] then Some ENOENT else None)\<rparr>"

text \<open>No file exists and none can be created: the directory is not writable.\<close>

definition read_only_dir :: filesystem where
  "read_only_dir = \<lparr>files = Map.empty, create_err = (\<lambda>name. Some EACCES)\<rparr>"

text \<open>
  The default output file exists, holds a header line, and its permissions allow
  appending but not reading (mode \<^verbatim>\<open>0200\<close>).
\<close>

definition write_only_file :: filesystem where
  "write_only_file =
     \<lparr>files = [''thread_timings.csv'' \<mapsto>
                 \<lparr>content = csv_header, read_err = Some EACCES, append_err = None\<rparr>],
      create_err = (\<lambda>name. None)\<rparr>"

text \<open>
  The default output file exists with a header line and can be read and opened for
  append, but the device has no room left: no file can be created.
\<close>

definition full_disk :: filesystem where
  "full_disk =
     \<lparr>files = [''thread_timings.csv'' \<mapsto>
                 \<lparr>content = csv_header, read_err = None, append_err = None\<rparr>],
      create_err = (\<lambda>name. Some ENOSPC)\<rparr>"

section \<open>Properties\<close>

subsection \<open>What \<^verbatim>\<open>endRun\<close> writes\<close>

lemma fprintf_foldl:
  "files fs fp = Some f \<Longrightarrow>
   foldl (\<lambda>fs x. fprintf fs fp (g x)) fs xs =
   fs\<lparr>files := (files fs)(fp \<mapsto> f\<lparr>content := content f @ concat (map g xs)\<rparr>)\<rparr>"
proof (induction xs arbitrary: fs f)
  case Nil
  then show ?case by (simp add: fun_upd_idem)
next
  case (Cons x xs)
  let ?f1 = "f\<lparr>content := content f @ g x\<rparr>"
  let ?fs1 = "fs\<lparr>files := (files fs)(fp \<mapsto> ?f1)\<rparr>"
  have step: "fprintf fs fp (g x) = ?fs1"
    using Cons.prems by (simp add: fprintf_def)
  have "files ?fs1 fp = Some ?f1" by simp
  note ih = Cons.IH [OF this]
  show ?case
    by (simp add: step ih cong: if_cong)
qed

lemma fopen_a_Inr:
  assumes "fopen_a fs p = Inr fs1"
  shows "\<exists>f. files fs1 p = Some f \<and> content f = file_text fs p \<and> append_err f = None
           \<and> f = (case files fs p of None \<Rightarrow> new_file | Some g \<Rightarrow> g)
           \<and> fs1 = fs\<lparr>files := (files fs)(p \<mapsto> f)\<rparr>"
  using assms
  by (auto simp: fopen_a_def file_text_def new_file_def fun_upd_idem split: option.splits)

lemma endRun_empty: "samples (gstate w) = [] \<Longrightarrow> endRun w = w"
  by (simp add: endRun_def)

lemma endRun_gstate: "gstate (endRun w) = gstate w"
  by (simp add: endRun_def Let_def split: sum.splits)

lemma endRun_ok:
  assumes "samples (gstate w) \<noteq> []"
      and "fopen_a (fsys w) (c_str (outputPath (gstate w))) = Inr fs1"
  shows "\<exists>f. files fs1 (c_str (outputPath (gstate w))) = Some f \<and>
     endRun w = w\<lparr>fsys := fs1\<lparr>files := (files fs1)(c_str (outputPath (gstate w)) \<mapsto>
        f\<lparr>content := content f
             @ (if fileHasContent (fsys w) (outputPath (gstate w)) then [] else csv_header)
             @ concat (map (csv_row (runId (gstate w)) (label (gstate w)) (numThreads (gstate w)))
                 (samples (gstate w)))\<rparr>)\<rparr>\<rparr>"
proof -
  let ?p = "c_str (outputPath (gstate w))"
  from fopen_a_Inr [OF assms(2)] obtain f where f: "files fs1 ?p = Some f" by blast
  show ?thesis
  proof (cases "fileHasContent (fsys w) (outputPath (gstate w))")
    case True
    then show ?thesis using assms f
      by (simp add: endRun_def Let_def fprintf_foldl [OF f])
  next
    case False
    let ?f1 = "f\<lparr>content := content f @ csv_header\<rparr>"
    have h: "fprintf fs1 ?p csv_header = fs1\<lparr>files := (files fs1)(?p \<mapsto> ?f1)\<rparr>"
      using f by (simp add: fprintf_def)
    have "files (fs1\<lparr>files := (files fs1)(?p \<mapsto> ?f1)\<rparr>) ?p = Some ?f1" by simp
    note fold = fprintf_foldl [OF this]
    show ?thesis using assms f False
      by (simp add: endRun_def Let_def h fold)
  qed
qed

lemma endRun_file_text:
  assumes "samples (gstate w) \<noteq> []"
      and "fopen_a (fsys w) (c_str (outputPath (gstate w))) = Inr fs1"
  shows "file_text (fsys (endRun w)) (c_str (outputPath (gstate w))) =
     file_text (fsys w) (c_str (outputPath (gstate w)))
     @ (if fileHasContent (fsys w) (outputPath (gstate w)) then [] else csv_header)
     @ concat (map (csv_row (runId (gstate w)) (label (gstate w)) (numThreads (gstate w)))
                 (samples (gstate w)))"
proof -
  from fopen_a_Inr [OF assms(2)] obtain f where
    f: "files fs1 (c_str (outputPath (gstate w))) = Some f"
       "content f = file_text (fsys w) (c_str (outputPath (gstate w)))" by blast
  from endRun_ok [OF assms] f show ?thesis
    by (auto simp: file_text_def)
qed

lemma endRun_with_lands:
  assumes "\<And>fs txt. wr fs (c_str (outputPath (gstate w))) txt =
      fprintf fs (c_str (outputPath (gstate w))) txt"
  shows "endRun_with wr w = endRun w"
  by (cases "fopen_a (fsys w) (c_str (outputPath (gstate w)))")
     (simp_all add: endRun_with_def endRun_def Let_def assms)

lemma foldl_keep: "foldl (\<lambda>fs x. fs) fs xs = fs"
  by (induction xs) simp_all

lemma endRun_with_no_space:
  assumes "samples (gstate w) \<noteq> []"
      and "fopen_a (fsys w) (c_str (outputPath (gstate w))) = Inr fs1"
  shows "endRun_with fprintf_no_space w = w\<lparr>fsys := fs1\<rparr>"
  using assms
  by (simp add: endRun_with_def Let_def fprintf_no_space_def foldl_keep)


lemma beginRun_gstate:
  "gstate (beginRun n w) =
     (gstate w)\<lparr>samples := [], numThreads := n, runCounter := runCounter (gstate w) + 1,
       runId := runCounter (gstate w) + 1\<rparr>"
  by (simp add: beginRun_def Let_def)

lemma beginRun_rest: "fsys (beginRun n w) = fsys w" "stderr (beginRun n w) = stderr w"
  by (simp_all add: beginRun_def Let_def)

lemma fileHasContent_iff:
  "fileHasContent fs path \<longleftrightarrow>
   (\<exists>f. files fs (c_str path) = Some f \<and> read_err f = None \<and> content f \<noteq> [])"
  by (auto simp: fileHasContent_def fopen_r_def fgetc_def EOF_def Let_def
      split: option.splits list.splits)

lemma endRun_reopen:
  assumes "samples (gstate w) \<noteq> []"
      and "fopen_a (fsys w) (c_str (outputPath (gstate w))) = Inr fs1"
  shows "fopen_a (fsys (endRun w)) (c_str (outputPath (gstate w))) = Inr (fsys (endRun w))"
proof -
  from fopen_a_Inr [OF assms(2)] obtain f where
    f: "files fs1 (c_str (outputPath (gstate w))) = Some f" "append_err f = None" by blast
  from endRun_ok [OF assms] f show ?thesis
    by (auto simp: fopen_a_def)
qed


subsection \<open>Sequences of calls\<close>

lemma run_Nil: "run [] w = w"
  by (simp add: run_def)

lemma run_Cons: "run (c # cs) w = run cs (exec c w)"
  by (simp add: run_def)

lemma run_append: "run (cs @ ds) w = run ds (run cs w)"
  by (simp add: run_def)

lemmas run_simps = run_Nil run_Cons

lemma exec_runCounter:
  "runCounter (gstate (exec c w)) = runCounter (gstate w) + of_nat (begin_count [c])"
  by (cases c)
     (simp_all add: setOutputPath_def setRunLabel_def beginRun_def recordSample_def
        endRun_gstate Let_def)

lemma begin_count_Cons: "begin_count (c # cs) = begin_count [c] + begin_count cs"
  by (cases c) simp_all

lemma run_runCounter:
  "runCounter (gstate (run cs w)) = runCounter (gstate w) + of_nat (begin_count cs)"
proof (induction cs arbitrary: w)
  case Nil
  show ?case by (simp add: run_Nil)
next
  case (Cons c cs)
  have "runCounter (gstate (run (c # cs) w)) =
        runCounter (gstate (exec c w)) + of_nat (begin_count cs)"
    by (simp add: Cons.IH run_Cons)
  also have "\<dots> = runCounter (gstate w) + of_nat (begin_count [c] + begin_count cs)"
    by (simp add: exec_runCounter)
  finally show ?case
    by (simp add: begin_count_Cons [of c cs])
qed

lemma exec_runId_inv:
  "runId (gstate w) = runCounter (gstate w) \<Longrightarrow>
   runId (gstate (exec c w)) = runCounter (gstate (exec c w))"
  by (cases c)
     (simp_all add: setOutputPath_def setRunLabel_def beginRun_def recordSample_def
        endRun_gstate Let_def)

lemma run_runId_inv:
  "runId (gstate w) = runCounter (gstate w) \<Longrightarrow>
   runId (gstate (run cs w)) = runCounter (gstate (run cs w))"
  by (induction cs arbitrary: w) (simp_all add: exec_runId_inv run_simps)

lemma run_runId_start:
  "runId (gstate (run cs (process_start fs))) = of_nat (begin_count cs)"
proof -
  have "runId (gstate (process_start fs)) = runCounter (gstate (process_start fs))"
    by (simp add: process_start_def initial_state_def)
  from run_runId_inv [OF this] show ?thesis
    by (simp add: run_runCounter) (simp add: process_start_def initial_state_def)
qed

lemma begin_count_replicate: "begin_count (replicate k (BeginRun n)) = k"
  by (induction k) simp_all

lemma begin_count_append: "begin_count (cs @ ds) = begin_count cs + begin_count ds"
proof (induction cs)
  case Nil
  show ?case by simp
next
  case (Cons c cs)
  then show ?case
    by (simp add: begin_count_Cons [of c "cs @ ds"] begin_count_Cons [of c cs])
qed

lemma sint_count: "k < 2 ^ 31 \<Longrightarrow> sint (of_nat k :: cint) = int k"
  by (simp add: signed_of_nat signed_take_bit_int_eq_self)

lemma exec_in_run:
  "in_run c \<Longrightarrow>
   exec c w = w\<lparr>gstate := (gstate w)\<lparr>label := label_after (label (gstate w)) [c],
       samples := samples (gstate w) @ recorded [c]\<rparr>\<rparr>"
  by (cases c) (simp_all add: setRunLabel_def recordSample_def Let_def)

lemma label_after_Cons: "label_after l (c # cs) = label_after (label_after l [c]) cs"
  by (cases c) simp_all

lemma recorded_Cons: "recorded (c # cs) = recorded [c] @ recorded cs"
  by (cases c) simp_all

lemma run_in_run:
  "list_all in_run cs \<Longrightarrow>
   run cs w = w\<lparr>gstate := (gstate w)\<lparr>label := label_after (label (gstate w)) cs,
       samples := samples (gstate w) @ recorded cs\<rparr>\<rparr>"
proof (induction cs arbitrary: w)
  case Nil
  show ?case by (simp add: run_Nil)
next
  case (Cons c cs)
  from Cons.prems have c: "in_run c" and cs: "list_all in_run cs" by simp_all
  show ?case
    by (simp add: run_Cons Cons.IH [OF cs] exec_in_run [OF c] label_after_Cons [of _ c cs]
        recorded_Cons [of c cs])
qed

lemma calls_in_run: "list_all in_run (map (\<lambda>(tid, s, e). RecordSample tid s e) calls)"
  by (induction calls) auto

lemma calls_label: "label_after l (map (\<lambda>(tid, s, e). RecordSample tid s e) calls) = l"
  by (induction calls) auto

lemma calls_recorded:
  "recorded (map (\<lambda>(tid, s, e). RecordSample tid s e) calls) =
   map (\<lambda>(tid, s, e). new_sample tid s e) calls"
  by (induction calls) auto

lemma digit_not_newline: "d < 10 \<Longrightarrow> digit d \<noteq> CHR 0x0A"
proof -
  assume "d < 10"
  then have "d \<in> {0, 1, 2, 3, 4, 5, 6, 7, 8, 9}" by auto
  then show ?thesis by (auto simp: digit_def)
qed

lemma digits_no_newline: "CHR 0x0A \<notin> set (digits n)"
proof (induction n rule: digits.induct)
  case (1 n)
  show ?case
  proof (cases "n < 10")
    case True
    then show ?thesis
      using digit_not_newline [of n] by (subst digits.simps) auto
  next
    case False
    have "digit (n mod 10) \<noteq> CHR 0x0A" by (rule digit_not_newline) simp
    with False "1.IH" show ?thesis
      by (subst digits.simps) auto
  qed
qed

lemma fmt_d_no_newline: "CHR 0x0A \<notin> set (fmt_d x)"
  by (simp add: fmt_d_def digits_no_newline)

lemma decimals6_no_newline: "CHR 0x0A \<notin> set (decimals6 n)"
  by (simp add: decimals6_def digit_not_newline [THEN not_sym])

lemma fmt_f6_no_newline: "CHR 0x0A \<notin> set (fmt_f6 x)"
  by (cases x)
     (simp_all add: fmt_f6_def Let_def digits_no_newline decimals6_no_newline
        split: prod.splits)

lemma csv_row_newlines:
  "CHR 0x0A \<notin> set (c_str lbl) \<Longrightarrow> count_list (csv_row rid lbl nt sample) (CHR 0x0A) = 1"
  using fmt_d_no_newline fmt_f6_no_newline
  by (simp add: csv_row_def count_list_0_iff)

lemma count_list_concat_rows:
  "(\<And>x. count_list (g x) c = 1) \<Longrightarrow> count_list (concat (map g xs)) c = length xs"
  by (induction xs) simp_all


lemma rows_of_calls:
  "map (csv_row r l n) (map (\<lambda>(tid, s, e). new_sample tid s e) calls) =
   map (\<lambda>(tid, s, e). csv_row r l n (new_sample tid s e)) calls"
  by (induction calls) auto

subsection \<open>Evaluation on the examples\<close>

lemma ilog2_numeral:
  "ilog2 0 = 0" "ilog2 1 = 0" "ilog2 (Suc 0) = 0"
  "ilog2 (numeral k) = (if numeral k < (2::nat) then 0 else Suc (ilog2 (numeral k div 2)))"
  by (subst ilog2.simps, simp)+

lemma digits_numeral:
  "digits 0 = [digit 0]" "digits 1 = [digit 1]" "digits (Suc 0) = [digit 1]"
  "digits (numeral k) =
     (if numeral k < (10::nat) then [digit (numeral k)]
      else digits (numeral k div 10) @ [digit (numeral k mod 10)])"
  by (subst digits.simps, simp)+

lemmas round_eval = round_double_def floor_log2_def ilog2_numeral round_half_even_def
  fraction_of_def Let_def

lemma d1000_value: "d1000 = Fin False 8796093022208000 (- 43)"
  by (simp add: d1000_def round_eval)

lemma lit_1_0_value: "lit_1_0 = Fin False 4503599627370496 (- 52)"
  by (simp add: lit_1_0_def round_eval)

lemma lit_1_0025_value: "lit_1_0025 = Fin False 4514858626438922 (- 52)"
  by (simp add: lit_1_0025_def round_eval)

lemma example_startMs: "dmul lit_1_0 d1000 = Fin False 8796093022208000 (- 43)"
  by (simp add: d1000_value lit_1_0_value round_eval)

lemma example_endMs: "dmul lit_1_0025 d1000 = Fin False 8818083254763520 (- 43)"
  by (simp add: d1000_value lit_1_0025_value round_eval)

lemma example_difference: "dsub lit_1_0025 lit_1_0 = Fin False 5764607523034112 (- 61)"
  by (simp add: lit_1_0_value lit_1_0025_value round_eval)

lemma example_durationMs:
  "dmul (dsub lit_1_0025 lit_1_0) d1000 = Fin False 5629499534213000 (- 51)"
  by (simp add: example_difference d1000_value round_eval)

lemma example_endMs_minus_startMs:
  "dsub (dmul lit_1_0025 d1000) (dmul lit_1_0 d1000) = Fin False 5629499534213120 (- 51)"
  by (simp add: example_startMs example_endMs round_eval)

lemmas fmt_eval = fmt_f6_def fmt_d_def digits_numeral decimals6_def digit_def
  round_half_even_def fraction_of_def

lemma example_start_text: "fmt_f6 (Fin False 8796093022208000 (- 43)) = ''1000.000000''"
  by (simp add: fmt_eval)

lemma example_end_text: "fmt_f6 (Fin False 8818083254763520 (- 43)) = ''1002.500000''"
  by (simp add: fmt_eval)

lemma example_duration_text: "fmt_f6 (Fin False 5629499534213000 (- 51)) = ''2.500000''"
  by (simp add: fmt_eval)

lemma example_sample:
  "new_sample tid lit_1_0 lit_1_0025 =
     \<lparr>threadId = tid, startMs = Fin False 8796093022208000 (- 43),
      endMs = Fin False 8818083254763520 (- 43),
      durationMs = Fin False 5629499534213000 (- 51)\<rparr>"
  by (simp add: new_sample_def example_startMs example_endMs example_durationMs)

lemmas world_eval = run_def process_start_def initial_state_def beginRun_def recordSample_def
  setRunLabel_def setOutputPath_def endRun_def Let_def fileHasContent_def fopen_r_def fopen_a_def
  fgetc_def EOF_def c_str_def fprintf_def perror_def new_file_def file_text_def

lemma example_row_text:
  "csv_row rid lbl nt (new_sample tid lit_1_0 lit_1_0025) =
     fmt_d rid @ '','' @ c_str lbl @ '','' @ fmt_d nt @ '','' @ fmt_d tid
     @ '',1000.000000,1002.500000,2.500000'' @ [CHR 0x0A]"
  by (simp add: csv_row_def example_sample example_start_text example_end_text
      example_duration_text)

lemmas row_eval = example_row_text fmt_d_def digits_numeral digit_def

lemma example_file:
  "file_text (fsys (run [BeginRun 1, RecordSample 0 lit_1_0 lit_1_0025, EndRun]
       (process_start no_files))) ''thread_timings.csv'' =
   csv_header @ ''1,,1,0,1000.000000,1002.500000,2.500000'' @ [CHR 0x0A]"
  by (simp add: run_def process_start_def initial_state_def no_files_def beginRun_def
      recordSample_def endRun_def Let_def fileHasContent_def fopen_r_def fopen_a_def c_str_def
      fprintf_def new_file_def file_text_def row_eval)

section \<open>The claims\<close>

text \<open>
  C1, as the code has it. For every sequence of \<^verbatim>\<open>recordSample\<close> calls made between one
  \<^verbatim>\<open>beginRun\<close> call and the following \<^verbatim>\<open>endRun\<close> call, if the output file opens in
  \<^verbatim>\<open>endRun\<close> and every write to the opened stream appends its text, the text appended to
  the file is the header, where one is due, followed by exactly one row per call, in call
  order, each row built from the sample of its call; and when the label holds no line
  feed, the number of lines appended after the header is the number of calls. Neither
  condition can be dropped: \<^verbatim>\<open>endRun\<close> checks no write, so on a device with no room the
  file opens and no row is appended for two calls; and the label is printed as it is, so
  a label with a line feed gives four lines for two calls.
\<close>

theorem rows_per_call_when_writes_land:
  assumes "fopen_a (fsys w0) (c_str (outputPath (gstate w0))) = Inr fs1"
      and "\<And>fs txt. wr fs (c_str (outputPath (gstate w0))) txt =
             fprintf fs (c_str (outputPath (gstate w0))) txt"
  shows "let w1 = run (map (\<lambda>(tid, s, e). RecordSample tid s e) calls) (beginRun n w0);
             p = c_str (outputPath (gstate w0));
             rows = map (\<lambda>(tid, s, e). csv_row (runId (gstate w1)) (label (gstate w0)) n
                      (new_sample tid s e)) calls
         in file_text (fsys (endRun_with wr w1)) p =
              file_text (fsys w0) p
              @ (if calls = [] \<or> fileHasContent (fsys w0) (outputPath (gstate w0)) then []
                 else csv_header)
              @ concat rows
            \<and> (CHR 0x0A \<notin> set (c_str (label (gstate w0))) \<longrightarrow>
                 count_list (concat rows) (CHR 0x0A) = length calls)"
proof -
  let ?cs = "map (\<lambda>(tid, s, e). RecordSample tid s e) calls"
  let ?w1 = "run ?cs (beginRun n w0)"
  let ?p = "c_str (outputPath (gstate w0))"
  let ?row = "\<lambda>(tid, s, e). csv_row (runId (gstate ?w1)) (label (gstate w0)) n
      (new_sample tid s e)"
  have w1: "?w1 = (beginRun n w0)\<lparr>gstate := (gstate (beginRun n w0))
      \<lparr>samples := map (\<lambda>(tid, s, e). new_sample tid s e) calls\<rparr>\<rparr>"
    by (simp add: run_in_run [OF calls_in_run] calls_label calls_recorded beginRun_gstate)
  have g: "outputPath (gstate ?w1) = outputPath (gstate w0)"
    "label (gstate ?w1) = label (gstate w0)" "numThreads (gstate ?w1) = n"
    "samples (gstate ?w1) = map (\<lambda>(tid, s, e). new_sample tid s e) calls"
    "fsys ?w1 = fsys w0"
    by (simp_all add: w1 beginRun_gstate beginRun_rest)
  have lands: "endRun_with wr ?w1 = endRun ?w1"
  proof (rule endRun_with_lands)
    fix fs str
    show "wr fs (c_str (outputPath (gstate ?w1))) str =
        fprintf fs (c_str (outputPath (gstate ?w1))) str"
      unfolding g(1) by (rule assms(2))
  qed
  have body: "file_text (fsys (endRun ?w1)) ?p =
      file_text (fsys w0) ?p
      @ (if calls = [] \<or> fileHasContent (fsys w0) (outputPath (gstate w0)) then []
         else csv_header)
      @ concat (map ?row calls)"
  proof (cases "calls = []")
    case True
    have "samples (gstate ?w1) = []" unfolding g(4) using True by simp
    then have "endRun ?w1 = ?w1" by (rule endRun_empty)
    then have "file_text (fsys (endRun ?w1)) ?p = file_text (fsys w0) ?p" by (simp only: g(5))
    with True show ?thesis by simp
  next
    case False
    then have ne: "samples (gstate ?w1) \<noteq> []" by (simp add: g)
    have op: "fopen_a (fsys ?w1) (c_str (outputPath (gstate ?w1))) = Inr fs1"
      using assms(1) by (simp add: g)
    note e = endRun_file_text [OF ne op, unfolded g rows_of_calls]
    with False show ?thesis by simp
  qed
  have count: "count_list (concat (map ?row calls)) (CHR 0x0A) = length calls"
    if "CHR 0x0A \<notin> set (c_str (label (gstate w0)))"
  proof (rule count_list_concat_rows)
    fix x :: "cint \<times> double \<times> double"
    show "count_list (?row x) (CHR 0x0A) = 1"
      using csv_row_newlines [OF that] by (simp add: case_prod_unfold)
  qed
  from body count show ?thesis
    by (simp add: Let_def lands)
qed

theorem rows_per_call_when_writes_land_witness:
  "fopen_a (fsys (process_start no_files)) (c_str (outputPath (gstate (process_start no_files))))
     = Inr (no_files\<lparr>files := [''thread_timings.csv'' \<mapsto> new_file]\<rparr>)
   \<and> CHR 0x0A \<notin> set (c_str (label (gstate (process_start no_files))))
   \<and> file_text (fsys (endRun_with fprintf (run
         (map (\<lambda>(tid, s, e). RecordSample tid s e)
            [(0, lit_1_0, lit_1_0025), (1, lit_1_0, lit_1_0025)])
         (beginRun 2 (process_start no_files))))) ''thread_timings.csv'' =
       csv_header
       @ ''1,,2,0,1000.000000,1002.500000,2.500000'' @ [CHR 0x0A]
       @ ''1,,2,1,1000.000000,1002.500000,2.500000'' @ [CHR 0x0A]
   \<and> count_list (''1,,2,0,1000.000000,1002.500000,2.500000'' @ [CHR 0x0A]
       @ ''1,,2,1,1000.000000,1002.500000,2.500000'' @ [CHR 0x0A]) (CHR 0x0A) = 2"
proof -
  let ?calls = "[(0 :: cint, lit_1_0, lit_1_0025), (1, lit_1_0, lit_1_0025)]"
  let ?w1 = "run (map (\<lambda>(tid, s, e). RecordSample tid s e) ?calls)
      (beginRun 2 (process_start no_files))"
  have h: "fopen_a (fsys (process_start no_files))
      (c_str (outputPath (gstate (process_start no_files))))
     = Inr (no_files\<lparr>files := [''thread_timings.csv'' \<mapsto> new_file]\<rparr>)"
    by (simp add: world_eval no_files_def)
  note t = rows_per_call_when_writes_land [where wr = fprintf, OF h refl, of ?calls 2,
      unfolded Let_def]
  have p: "c_str (outputPath (gstate (process_start no_files))) = ''thread_timings.csv''"
    "label (gstate (process_start no_files)) = []"
    "file_text (fsys (process_start no_files)) ''thread_timings.csv'' = []"
    "\<not> fileHasContent (fsys (process_start no_files))
        (outputPath (gstate (process_start no_files)))"
    "runId (gstate ?w1) = 1"
    by (simp_all add: world_eval no_files_def)
  have l: "CHR 0x0A \<notin> set (c_str (label (gstate (process_start no_files))))"
    by (simp add: p c_str_def)
  from t [THEN conjunct1] have
    "file_text (fsys (endRun_with fprintf ?w1)) ''thread_timings.csv'' =
       csv_header
       @ ''1,,2,0,1000.000000,1002.500000,2.500000'' @ [CHR 0x0A]
       @ ''1,,2,1,1000.000000,1002.500000,2.500000'' @ [CHR 0x0A]"
    unfolding p using p(4) by (simp add: row_eval c_str_def)
  moreover from t [THEN conjunct2, rule_format, OF l] have
    "count_list (''1,,2,0,1000.000000,1002.500000,2.500000'' @ [CHR 0x0A]
       @ ''1,,2,1,1000.000000,1002.500000,2.500000'' @ [CHR 0x0A]) (CHR 0x0A) = 2"
    unfolding p by (simp add: row_eval c_str_def)
  ultimately show ?thesis using h l by simp
qed

theorem rows_lost_or_split_counterexample:
  "fopen_a (fsys (run [BeginRun 2, RecordSample 0 lit_1_0 lit_1_0025,
        RecordSample 1 lit_1_0 lit_1_0025] (process_start full_disk))) ''thread_timings.csv'' =
     Inr full_disk
   \<and> file_text full_disk ''thread_timings.csv'' = csv_header
   \<and> file_text (fsys (endRun_with fprintf_no_space (run [BeginRun 2,
        RecordSample 0 lit_1_0 lit_1_0025, RecordSample 1 lit_1_0 lit_1_0025]
        (process_start full_disk)))) ''thread_timings.csv'' = csv_header
   \<and> file_text (fsys (endRun (run [SetRunLabel (''a'' @ [CHR 0x0A] @ ''b''), BeginRun 2,
        RecordSample 0 lit_1_0 lit_1_0025, RecordSample 1 lit_1_0 lit_1_0025]
        (process_start no_files)))) ''thread_timings.csv'' =
       csv_header
       @ ''1,a'' @ [CHR 0x0A] @ ''b,2,0,1000.000000,1002.500000,2.500000'' @ [CHR 0x0A]
       @ ''1,a'' @ [CHR 0x0A] @ ''b,2,1,1000.000000,1002.500000,2.500000'' @ [CHR 0x0A]
   \<and> count_list (''1,a'' @ [CHR 0x0A] @ ''b,2,0,1000.000000,1002.500000,2.500000'' @ [CHR 0x0A]
       @ ''1,a'' @ [CHR 0x0A] @ ''b,2,1,1000.000000,1002.500000,2.500000'' @ [CHR 0x0A])
       (CHR 0x0A) = 4"
proof -
  let ?w = "run [BeginRun 2, RecordSample 0 lit_1_0 lit_1_0025,
      RecordSample 1 lit_1_0 lit_1_0025] (process_start full_disk)"
  have ne: "samples (gstate ?w) \<noteq> []"
    by (simp add: world_eval)
  have p: "c_str (outputPath (gstate ?w)) = ''thread_timings.csv''" "fsys ?w = full_disk"
    by (simp_all add: world_eval)
  have op: "fopen_a (fsys ?w) (c_str (outputPath (gstate ?w))) = Inr full_disk"
    unfolding p by (simp add: fopen_a_def full_disk_def)
  have before: "file_text full_disk ''thread_timings.csv'' = csv_header"
    by (simp add: file_text_def full_disk_def)
  have "endRun_with fprintf_no_space ?w = ?w\<lparr>fsys := full_disk\<rparr>"
    by (rule endRun_with_no_space [OF ne op])
  then have lost: "file_text (fsys (endRun_with fprintf_no_space ?w)) ''thread_timings.csv'' =
      csv_header"
    by (simp add: before)
  have split: "file_text (fsys (endRun (run [SetRunLabel (''a'' @ [CHR 0x0A] @ ''b''),
        BeginRun 2, RecordSample 0 lit_1_0 lit_1_0025, RecordSample 1 lit_1_0 lit_1_0025]
        (process_start no_files)))) ''thread_timings.csv'' =
       csv_header
       @ ''1,a'' @ [CHR 0x0A] @ ''b,2,0,1000.000000,1002.500000,2.500000'' @ [CHR 0x0A]
       @ ''1,a'' @ [CHR 0x0A] @ ''b,2,1,1000.000000,1002.500000,2.500000'' @ [CHR 0x0A]"
    by (simp add: world_eval no_files_def row_eval)
  from op lost before split show ?thesis
    unfolding p by simp
qed

text \<open>
  C2, as the code has it. \<^verbatim>\<open>runId\<close> is 1 after the first \<^verbatim>\<open>beginRun\<close> call of the
  process and each further \<^verbatim>\<open>beginRun\<close> call raises it by exactly 1, whatever other calls
  are made in between, as long as fewer than \<open>2\<^sup>3\<^sup>1 - 1\<close> \<^verbatim>\<open>beginRun\<close> calls came before:
  after \<open>k\<close> such calls \<^verbatim>\<open>runId\<close> is \<open>k\<close>, so no value is used twice up to there. The
  counter is an \<^verbatim>\<open>int\<close>: the call after \<open>2\<^sup>3\<^sup>1 - 1\<close> calls overflows it, and with the
  wrap-around of the machine \<^verbatim>\<open>runId\<close> falls from \<open>2147483647\<close> to \<open>- 2147483648\<close>.
\<close>

theorem runId_counts_beginRun:
  assumes "begin_count cs < 2 ^ 31 - 1"
  shows "sint (runId (gstate (run cs (process_start fs)))) = int (begin_count cs)
         \<and> sint (runId (gstate (beginRun n (run cs (process_start fs))))) =
             int (begin_count cs) + 1"
proof -
  have a: "begin_count cs < 2 ^ 31" and b: "begin_count (cs @ [BeginRun n]) < 2 ^ 31"
    using assms by (simp_all add: begin_count_append)
  have "beginRun n (run cs (process_start fs)) = run (cs @ [BeginRun n]) (process_start fs)"
    by (simp add: run_append run_simps)
  then show ?thesis
    using sint_count [OF a] sint_count [OF b]
    by (simp add: run_runId_start begin_count_append)
qed

theorem runId_counts_beginRun_witness:
  "begin_count [BeginRun 4, RecordSample 0 lit_1_0 lit_1_0025, EndRun] < 2 ^ 31 - 1
   \<and> sint (runId (gstate (run [BeginRun 4, RecordSample 0 lit_1_0 lit_1_0025, EndRun]
         (process_start no_files)))) = 1
   \<and> sint (runId (gstate (beginRun 4 (run [BeginRun 4, RecordSample 0 lit_1_0 lit_1_0025, EndRun]
         (process_start no_files))))) = 2"
proof -
  have h: "begin_count [BeginRun 4, RecordSample 0 lit_1_0 lit_1_0025, EndRun] < 2 ^ 31 - 1"
    by simp
  from runId_counts_beginRun [OF h, of no_files 4] h show ?thesis
    by simp
qed

theorem runId_wraps_counterexample:
  "sint (runId (gstate (run (replicate 2147483647 (BeginRun 1)) (process_start no_files)))) =
     2147483647
   \<and> sint (runId (gstate (beginRun 1
        (run (replicate 2147483647 (BeginRun 1)) (process_start no_files))))) = - 2147483648"
proof -
  have "beginRun 1 (run (replicate 2147483647 (BeginRun 1)) (process_start no_files)) =
      run (replicate 2147483647 (BeginRun 1) @ [BeginRun 1]) (process_start no_files)"
    by (simp add: run_append run_simps)
  then show ?thesis
    by (simp add: run_runId_start begin_count_append begin_count_replicate)
qed

text \<open>
  C3, as the code has it. \<^verbatim>\<open>recordSample(threadId, startSeconds, endSeconds)\<close> appends
  one sample with \<^verbatim>\<open>startMs = startSeconds * 1000.0\<close>, \<^verbatim>\<open>endMs = endSeconds * 1000.0\<close>
  and \<^verbatim>\<open>durationMs = (endSeconds - startSeconds) * 1000.0\<close>, each operation rounded to a
  double, and changes nothing else of the state; \<^verbatim>\<open>endRun\<close> prints the stored fields.
  With \<^verbatim>\<open>startSeconds = 1.0\<close> and \<^verbatim>\<open>endSeconds = 1.0025\<close> the row reads
  \<^verbatim>\<open>1000.000000\<close>, \<^verbatim>\<open>1002.500000\<close>, \<^verbatim>\<open>2.500000\<close>. The stored duration is not
  \<^verbatim>\<open>endMs - startMs\<close>: in this example it is \<open>5629499534213000 * 2\<^sup>-\<^sup>5\<^sup>1\<close>
  (2.4999999999999467), while \<^verbatim>\<open>endMs - startMs\<close> is \<open>5629499534213120 * 2\<^sup>-\<^sup>5\<^sup>1\<close>
  (2.5).
\<close>

theorem recordSample_stores_milliseconds:
  "gstate (recordSample tid startSeconds endSeconds w) =
     (gstate w)\<lparr>samples := samples (gstate w) @
        [\<lparr>threadId = tid,
          startMs = dmul startSeconds d1000,
          endMs = dmul endSeconds d1000,
          durationMs = dmul (dsub endSeconds startSeconds) d1000\<rparr>]\<rparr>
   \<and> file_text (fsys (run [BeginRun 1, RecordSample 0 lit_1_0 lit_1_0025, EndRun]
         (process_start no_files))) ''thread_timings.csv'' =
       csv_header @ ''1,,1,0,1000.000000,1002.500000,2.500000'' @ [CHR 0x0A]"
proof (rule conjI)
  show "gstate (recordSample tid startSeconds endSeconds w) =
     (gstate w)\<lparr>samples := samples (gstate w) @
        [\<lparr>threadId = tid,
          startMs = dmul startSeconds d1000,
          endMs = dmul endSeconds d1000,
          durationMs = dmul (dsub endSeconds startSeconds) d1000\<rparr>]\<rparr>"
    by (simp add: recordSample_def new_sample_def Let_def)
  show "file_text (fsys (run [BeginRun 1, RecordSample 0 lit_1_0 lit_1_0025, EndRun]
         (process_start no_files))) ''thread_timings.csv'' =
       csv_header @ ''1,,1,0,1000.000000,1002.500000,2.500000'' @ [CHR 0x0A]"
    by (rule example_file)
qed

theorem recordSample_stores_milliseconds_witness:
  "samples (gstate (recordSample 7 lit_1_0 lit_1_0025 (process_start no_files))) =
     [\<lparr>threadId = 7,
       startMs = Fin False 8796093022208000 (- 43),
       endMs = Fin False 8818083254763520 (- 43),
       durationMs = Fin False 5629499534213000 (- 51)\<rparr>]"
  using recordSample_stores_milliseconds [of 7 lit_1_0 lit_1_0025 "process_start no_files"]
  by (simp add: process_start_def initial_state_def example_startMs example_endMs
      example_durationMs)

theorem duration_not_difference_counterexample:
  "durationMs (last (samples (gstate
       (recordSample 0 lit_1_0 lit_1_0025 (process_start no_files))))) =
     Fin False 5629499534213000 (- 51)
   \<and> dsub (endMs (last (samples (gstate
         (recordSample 0 lit_1_0 lit_1_0025 (process_start no_files))))))
       (startMs (last (samples (gstate
         (recordSample 0 lit_1_0 lit_1_0025 (process_start no_files)))))) =
     Fin False 5629499534213120 (- 51)
   \<and> durationMs (last (samples (gstate
       (recordSample 0 lit_1_0 lit_1_0025 (process_start no_files))))) \<noteq>
     dsub (endMs (last (samples (gstate
         (recordSample 0 lit_1_0 lit_1_0025 (process_start no_files))))))
       (startMs (last (samples (gstate
         (recordSample 0 lit_1_0 lit_1_0025 (process_start no_files))))))"
  by (simp add: recordSample_def Let_def example_sample
      example_endMs [symmetric] example_startMs [symmetric] example_endMs_minus_startMs)

text \<open>
  C4. Calling \<^verbatim>\<open>endRun\<close> when the sample buffer is empty changes nothing: no file is
  created or written, nothing goes to the error stream, and the state is as before.
\<close>

theorem endRun_empty_buffer:
  "samples (gstate w) = [] \<Longrightarrow>
   endRun w = w \<and> fsys (endRun w) = fsys w \<and> stderr (endRun w) = stderr w"
  by (simp add: endRun_def)

theorem endRun_empty_buffer_witness:
  "samples (gstate (process_start no_files)) = []
   \<and> endRun (process_start no_files) = process_start no_files
   \<and> files (fsys (endRun (process_start no_files))) ''thread_timings.csv'' = None
   \<and> stderr (endRun (process_start no_files)) = []"
proof -
  have h: "samples (gstate (process_start no_files)) = []"
    by (simp add: process_start_def initial_state_def)
  from endRun_empty_buffer [OF h] h show ?thesis
    by (simp add: process_start_def no_files_def)
qed

text \<open>
  C5. If opening the output file for append fails in \<^verbatim>\<open>endRun\<close>, the line
  \<^verbatim>\<open>thread_timings fopen: \<close> followed by the text of the system error goes to the error
  stream, and \<^verbatim>\<open>endRun\<close> returns: no file is written or created, and the recorder state is
  untouched, so nothing of the copied samples is written back to the shared buffer.
\<close>

theorem endRun_open_failure:
  assumes "samples (gstate w) \<noteq> []"
      and "fopen_a (fsys w) (c_str (outputPath (gstate w))) = Inl e"
  shows "stderr (endRun w) = stderr w @ ''thread_timings fopen: '' @ strerror e @ [CHR 0x0A]
         \<and> fsys (endRun w) = fsys w \<and> gstate (endRun w) = gstate w"
  using assms by (simp add: endRun_def Let_def perror_def)

theorem endRun_open_failure_witness:
  "samples (gstate (run [BeginRun 1, RecordSample 0 lit_1_0 lit_1_0025]
      (process_start read_only_dir))) \<noteq> []
   \<and> fopen_a read_only_dir ''thread_timings.csv'' = Inl EACCES
   \<and> stderr (endRun (run [BeginRun 1, RecordSample 0 lit_1_0 lit_1_0025]
        (process_start read_only_dir))) =
       ''thread_timings fopen: Permission denied'' @ [CHR 0x0A]
   \<and> files (fsys (endRun (run [BeginRun 1, RecordSample 0 lit_1_0 lit_1_0025]
        (process_start read_only_dir)))) ''thread_timings.csv'' = None"
proof -
  let ?w = "run [BeginRun 1, RecordSample 0 lit_1_0 lit_1_0025] (process_start read_only_dir)"
  have h1: "samples (gstate ?w) \<noteq> []"
    by (simp add: world_eval)
  have h2: "fopen_a (fsys ?w) (c_str (outputPath (gstate ?w))) = Inl EACCES"
    by (simp add: world_eval read_only_dir_def)
  have p: "stderr ?w = []" "fsys ?w = read_only_dir"
    "c_str (outputPath (gstate ?w)) = ''thread_timings.csv''"
    by (simp_all add: world_eval)
  from endRun_open_failure [OF h1 h2] h1 h2 show ?thesis
    unfolding p by (simp add: read_only_dir_def)
qed




text \<open>
  C7. Every row written for a run carries the label that is current when \<^verbatim>\<open>endRun\<close>
  executes. For any sequence of \<^verbatim>\<open>recordSample\<close> and \<^verbatim>\<open>setRunLabel\<close> calls after a
  \<^verbatim>\<open>beginRun\<close>, the label at \<^verbatim>\<open>endRun\<close> is the argument of the last \<^verbatim>\<open>setRunLabel\<close>
  call (the label before the run when there was none), and all rows of the run are printed
  with that one label (its bytes up to the first NUL, as \<^verbatim>\<open>%s\<close> prints them), whatever
  the label was when each sample was recorded.
\<close>

theorem rows_carry_label_at_endRun:
  assumes "list_all in_run cs"
      and "fopen_a (fsys w0) (c_str (outputPath (gstate w0))) = Inr fs1"
  shows "let w1 = run cs (beginRun n w0);
             p = c_str (outputPath (gstate w0));
             l = label_after (label (gstate w0)) cs
         in label (gstate w1) = l
            \<and> file_text (fsys (endRun w1)) p =
                file_text (fsys w0) p
                @ (if recorded cs = [] \<or> fileHasContent (fsys w0) (outputPath (gstate w0))
                   then [] else csv_header)
                @ concat (map (csv_row (runId (gstate w1)) l n) (recorded cs))"
proof -
  let ?w1 = "run cs (beginRun n w0)"
  let ?p = "c_str (outputPath (gstate w0))"
  let ?l = "label_after (label (gstate w0)) cs"
  have g: "outputPath (gstate ?w1) = outputPath (gstate w0)"
    "label (gstate ?w1) = ?l" "numThreads (gstate ?w1) = n"
    "samples (gstate ?w1) = recorded cs"
    "fsys ?w1 = fsys w0"
    by (simp_all add: run_in_run [OF assms(1)] beginRun_gstate beginRun_rest)
  have "file_text (fsys (endRun ?w1)) ?p =
      file_text (fsys w0) ?p
      @ (if recorded cs = [] \<or> fileHasContent (fsys w0) (outputPath (gstate w0))
         then [] else csv_header)
      @ concat (map (csv_row (runId (gstate ?w1)) ?l n) (recorded cs))"
  proof (cases "recorded cs = []")
    case True
    then have "samples (gstate ?w1) = []" by (simp add: g)
    then have "endRun ?w1 = ?w1" by (rule endRun_empty)
    with True show ?thesis by (simp add: g)
  next
    case False
    then have ne: "samples (gstate ?w1) \<noteq> []" by (simp add: g)
    have op: "fopen_a (fsys ?w1) (c_str (outputPath (gstate ?w1))) = Inr fs1"
      using assms(2) by (simp add: g)
    from endRun_file_text [OF ne op] False show ?thesis
      by (simp add: g)
  qed
  then show ?thesis by (simp add: Let_def g)
qed

theorem rows_carry_label_at_endRun_witness:
  "list_all in_run [RecordSample 0 lit_1_0 lit_1_0025, SetRunLabel ''after'',
      RecordSample 1 lit_1_0 lit_1_0025]
   \<and> fopen_a no_files ''thread_timings.csv'' =
       Inr (no_files\<lparr>files := [''thread_timings.csv'' \<mapsto> new_file]\<rparr>)
   \<and> label (gstate (recordSample 0 lit_1_0 lit_1_0025
        (beginRun 2 (setRunLabel ''before'' (process_start no_files))))) = ''before''
   \<and> file_text (fsys (endRun (run [RecordSample 0 lit_1_0 lit_1_0025, SetRunLabel ''after'',
          RecordSample 1 lit_1_0 lit_1_0025]
        (beginRun 2 (setRunLabel ''before'' (process_start no_files))))))
        ''thread_timings.csv'' =
       csv_header
       @ ''1,after,2,0,1000.000000,1002.500000,2.500000'' @ [CHR 0x0A]
       @ ''1,after,2,1,1000.000000,1002.500000,2.500000'' @ [CHR 0x0A]"
proof -
  let ?cs = "[RecordSample 0 lit_1_0 lit_1_0025, SetRunLabel ''after'',
      RecordSample 1 lit_1_0 lit_1_0025]"
  let ?w0 = "setRunLabel ''before'' (process_start no_files)"
  have h1: "list_all in_run ?cs"
    by simp
  have h2: "fopen_a (fsys ?w0) (c_str (outputPath (gstate ?w0))) =
      Inr (no_files\<lparr>files := [''thread_timings.csv'' \<mapsto> new_file]\<rparr>)"
    by (simp add: world_eval no_files_def)
  have p: "c_str (outputPath (gstate ?w0)) = ''thread_timings.csv''"
    "fsys ?w0 = no_files" "label (gstate ?w0) = ''before''"
    "runId (gstate (run ?cs (beginRun 2 ?w0))) = 1"
    by (simp_all add: world_eval)
  have q: "label_after ''before'' ?cs = ''after''"
    "recorded ?cs = [new_sample 0 lit_1_0 lit_1_0025, new_sample 1 lit_1_0 lit_1_0025]"
    "file_text no_files ''thread_timings.csv'' = []"
    "\<not> fileHasContent no_files (outputPath (gstate ?w0))"
    by (simp_all add: world_eval no_files_def)
  note t = rows_carry_label_at_endRun [OF h1 h2, of 2, unfolded Let_def p q]
  from t [THEN conjunct2] have
    "file_text (fsys (endRun (run ?cs (beginRun 2 ?w0)))) ''thread_timings.csv'' =
       csv_header
       @ ''1,after,2,0,1000.000000,1002.500000,2.500000'' @ [CHR 0x0A]
       @ ''1,after,2,1,1000.000000,1002.500000,2.500000'' @ [CHR 0x0A]"
    using q(4) by (simp add: row_eval c_str_def)
  moreover have "label (gstate (recordSample 0 lit_1_0 lit_1_0025 (beginRun 2 ?w0))) = ''before''"
    by (simp add: world_eval)
  ultimately show ?thesis
    using h1 h2 unfolding p by simp
qed

text \<open>
  C8. \<^verbatim>\<open>endRun\<close> never clears the sample buffer. \<^verbatim>\<open>beginRun\<close> clears it, sets
  \<^verbatim>\<open>numThreads\<close> and takes the next \<^verbatim>\<open>runId\<close>; every other call leaves the buffered
  samples in place (\<^verbatim>\<open>recordSample\<close> adds one at the end). So two \<^verbatim>\<open>endRun\<close> calls on a
  non-empty buffer with nothing in between append the same rows twice.
\<close>

theorem only_beginRun_clears:
  "samples (gstate (endRun w)) = samples (gstate w)
   \<and> gstate (beginRun n w) =
       (gstate w)\<lparr>samples := [], numThreads := n, runCounter := runCounter (gstate w) + 1,
         runId := runCounter (gstate w) + 1\<rparr>
   \<and> (\<forall>c. (\<forall>k. c \<noteq> BeginRun k) \<longrightarrow>
         (\<exists>more. samples (gstate (exec c w)) = samples (gstate w) @ more))
   \<and> (\<forall>fs1. samples (gstate w) \<noteq> [] \<and>
         fopen_a (fsys w) (c_str (outputPath (gstate w))) = Inr fs1 \<longrightarrow>
         (let p = c_str (outputPath (gstate w));
              rows = concat (map (csv_row (runId (gstate w)) (label (gstate w))
                       (numThreads (gstate w))) (samples (gstate w)))
          in file_text (fsys (endRun (endRun w))) p =
               file_text (fsys w) p
               @ (if fileHasContent (fsys w) (outputPath (gstate w)) then [] else csv_header)
               @ rows
               @ (if fileHasContent (fsys (endRun w)) (outputPath (gstate w)) then []
                  else csv_header)
               @ rows))"
proof -
  have keep: "\<exists>more. samples (gstate (exec c w)) = samples (gstate w) @ more"
    if "\<forall>k. c \<noteq> BeginRun k" for c
    using that
    by (cases c)
       (simp_all add: setOutputPath_def setRunLabel_def recordSample_def Let_def endRun_gstate)
  have twice: "file_text (fsys (endRun (endRun w))) (c_str (outputPath (gstate w))) =
      file_text (fsys w) (c_str (outputPath (gstate w)))
      @ (if fileHasContent (fsys w) (outputPath (gstate w)) then [] else csv_header)
      @ concat (map (csv_row (runId (gstate w)) (label (gstate w))
                       (numThreads (gstate w))) (samples (gstate w)))
      @ (if fileHasContent (fsys (endRun w)) (outputPath (gstate w)) then [] else csv_header)
      @ concat (map (csv_row (runId (gstate w)) (label (gstate w))
                       (numThreads (gstate w))) (samples (gstate w)))"
    if ne: "samples (gstate w) \<noteq> []"
      and op: "fopen_a (fsys w) (c_str (outputPath (gstate w))) = Inr fs1" for fs1
  proof -
    have s: "samples (gstate (endRun w)) \<noteq> []"
      using ne by (simp add: endRun_gstate)
    have o: "fopen_a (fsys (endRun w)) (c_str (outputPath (gstate (endRun w)))) =
        Inr (fsys (endRun w))"
      using endRun_reopen [OF ne op] by (simp add: endRun_gstate)
    from endRun_file_text [OF s o] endRun_file_text [OF ne op] show ?thesis
      by (simp add: endRun_gstate)
  qed
  show ?thesis
    using keep twice by (simp add: endRun_gstate beginRun_gstate Let_def)
qed

theorem only_beginRun_clears_witness:
  "samples (gstate (run [BeginRun 3, RecordSample 5 lit_1_0 lit_1_0025]
      (process_start no_files))) \<noteq> []
   \<and> fopen_a no_files ''thread_timings.csv'' =
       Inr (no_files\<lparr>files := [''thread_timings.csv'' \<mapsto> new_file]\<rparr>)
   \<and> file_text (fsys (endRun (endRun (run [BeginRun 3, RecordSample 5 lit_1_0 lit_1_0025]
        (process_start no_files))))) ''thread_timings.csv'' =
       csv_header @ ''1,,3,5,1000.000000,1002.500000,2.500000'' @ [CHR 0x0A]
       @ ''1,,3,5,1000.000000,1002.500000,2.500000'' @ [CHR 0x0A]
   \<and> samples (gstate (endRun (run [BeginRun 3, RecordSample 5 lit_1_0 lit_1_0025]
        (process_start no_files)))) = [new_sample 5 lit_1_0 lit_1_0025]
   \<and> samples (gstate (beginRun 3 (endRun (run [BeginRun 3, RecordSample 5 lit_1_0 lit_1_0025]
        (process_start no_files))))) = []"
proof -
  let ?w = "run [BeginRun 3, RecordSample 5 lit_1_0 lit_1_0025] (process_start no_files)"
  have h1: "samples (gstate ?w) \<noteq> []"
    by (simp add: world_eval)
  have h2: "fopen_a (fsys ?w) (c_str (outputPath (gstate ?w))) =
      Inr (no_files\<lparr>files := [''thread_timings.csv'' \<mapsto> new_file]\<rparr>)"
    by (simp add: world_eval no_files_def)
  have p: "c_str (outputPath (gstate ?w)) = ''thread_timings.csv''"
    "fsys ?w = no_files"
    "runId (gstate ?w) = 1" "label (gstate ?w) = []" "numThreads (gstate ?w) = 3"
    "samples (gstate ?w) = [new_sample 5 lit_1_0 lit_1_0025]"
    by (simp_all add: world_eval)
  have q: "file_text no_files ''thread_timings.csv'' = []"
    "\<not> fileHasContent no_files (outputPath (gstate ?w))"
    "fileHasContent (fsys (endRun ?w)) (outputPath (gstate ?w))"
    by (simp_all add: world_eval no_files_def csv_header_def)
  note t = only_beginRun_clears [of ?w 3]
  note t4 = t [THEN conjunct2, THEN conjunct2, THEN conjunct2, rule_format,
      OF conjI [OF h1 h2], unfolded Let_def p]
  from t4 have a:
    "file_text (fsys (endRun (endRun ?w))) ''thread_timings.csv'' =
       csv_header @ ''1,,3,5,1000.000000,1002.500000,2.500000'' @ [CHR 0x0A]
       @ ''1,,3,5,1000.000000,1002.500000,2.500000'' @ [CHR 0x0A]"
    using q by (simp add: row_eval c_str_def)
  from t [THEN conjunct1] have b:
    "samples (gstate (endRun ?w)) = [new_sample 5 lit_1_0 lit_1_0025]"
    by (simp add: p)
  have c: "samples (gstate (beginRun 3 (endRun ?w))) = []"
    by (simp add: beginRun_gstate)
  from a b c h1 h2 show ?thesis
    unfolding p by simp
qed

text \<open>
  C9. If the output file exists with content but cannot be opened for reading while it
  can be opened for append, \<^verbatim>\<open>fileHasContent\<close> returns false and \<^verbatim>\<open>endRun\<close> writes a
  header line after the existing content, before the rows: a file that began with a
  header now holds two.
\<close>

theorem unreadable_file_gets_header:
  assumes "samples (gstate w) \<noteq> []"
      and "files (fsys w) (c_str (outputPath (gstate w))) = Some f"
      and "content f \<noteq> []"
      and "read_err f = Some e"
      and "append_err f = None"
  shows "\<not> fileHasContent (fsys w) (outputPath (gstate w))
         \<and> file_text (fsys (endRun w)) (c_str (outputPath (gstate w))) =
             content f @ csv_header
             @ concat (map (csv_row (runId (gstate w)) (label (gstate w))
                 (numThreads (gstate w))) (samples (gstate w)))"
proof -
  have no: "\<not> fileHasContent (fsys w) (outputPath (gstate w))"
    using assms(2,4) by (simp add: fileHasContent_iff)
  have "fopen_a (fsys w) (c_str (outputPath (gstate w))) = Inr (fsys w)"
    using assms(2,5) by (simp add: fopen_a_def)
  from endRun_file_text [OF assms(1) this] no assms(2) show ?thesis
    by (simp add: file_text_def)
qed

theorem unreadable_file_gets_header_witness:
  "samples (gstate (run [BeginRun 2, RecordSample 1 lit_1_0 lit_1_0025]
      (process_start write_only_file))) \<noteq> []
   \<and> files write_only_file ''thread_timings.csv'' =
       Some \<lparr>content = csv_header, read_err = Some EACCES, append_err = None\<rparr>
   \<and> csv_header \<noteq> []
   \<and> \<not> fileHasContent write_only_file ''thread_timings.csv''
   \<and> file_text (fsys (endRun (run [BeginRun 2, RecordSample 1 lit_1_0 lit_1_0025]
        (process_start write_only_file)))) ''thread_timings.csv'' =
       csv_header @ csv_header @ ''1,,2,1,1000.000000,1002.500000,2.500000'' @ [CHR 0x0A]"
proof -
  let ?w = "run [BeginRun 2, RecordSample 1 lit_1_0 lit_1_0025] (process_start write_only_file)"
  let ?f = "\<lparr>content = csv_header, read_err = Some EACCES, append_err = None\<rparr>"
  have p: "fsys ?w = write_only_file" "outputPath (gstate ?w) = ''thread_timings.csv''"
    "c_str ''thread_timings.csv'' = ''thread_timings.csv''"
    "runId (gstate ?w) = 1" "label (gstate ?w) = []" "numThreads (gstate ?w) = 2"
    "samples (gstate ?w) = [new_sample 1 lit_1_0 lit_1_0025]"
    by (simp_all add: world_eval)
  have h1: "samples (gstate ?w) \<noteq> []"
    by (simp add: p)
  have h2: "files (fsys ?w) (c_str (outputPath (gstate ?w))) = Some ?f"
    by (simp add: p) (simp add: write_only_file_def)
  have h3: "content ?f \<noteq> []"
    by (simp add: csv_header_def)
  have h4: "read_err ?f = Some EACCES" and h5: "append_err ?f = None"
    by simp_all
  note t = unreadable_file_gets_header [OF h1 h2 h3 h4 h5, unfolded p]
  from t [THEN conjunct2] have
    "file_text (fsys (endRun ?w)) ''thread_timings.csv'' =
       csv_header @ csv_header @ ''1,,2,1,1000.000000,1002.500000,2.500000'' @ [CHR 0x0A]"
    by (simp add: row_eval c_str_def)
  with t [THEN conjunct1] h1 h2 h3 show ?thesis
    unfolding p by simp
qed

text \<open>
  C10. \<^verbatim>\<open>endRun\<close> never modifies the recorder state: whether the buffer is empty, the
  open fails or the flush succeeds, \<^verbatim>\<open>runId\<close>, \<^verbatim>\<open>numThreads\<close>, \<^verbatim>\<open>runCounter\<close>,
  \<^verbatim>\<open>label\<close>, \<^verbatim>\<open>outputPath\<close> and the sample buffer are as before the call.
\<close>

theorem endRun_state_unchanged:
  "gstate (endRun w) = gstate w"
  by (simp add: endRun_def Let_def split: sum.splits)

theorem endRun_state_unchanged_witness:
  "gstate (endRun (run [BeginRun 1, RecordSample 0 lit_1_0 lit_1_0025]
      (process_start no_files))) =
     \<lparr>runId = 1, numThreads = 1, runCounter = 1, label = [],
      outputPath = ''thread_timings.csv'', samples = [new_sample 0 lit_1_0 lit_1_0025]\<rparr>"
  using endRun_state_unchanged
    [of "run [BeginRun 1, RecordSample 0 lit_1_0 lit_1_0025] (process_start no_files)"]
  by (simp add: run_def process_start_def initial_state_def beginRun_def recordSample_def Let_def)

end
